theory Spec2Isabelle
  imports Main
begin

section \<open>Python values used by \<^verbatim>\<open>client.py\<close>\<close>

text \<open>
  A Python \<^verbatim>\<open>str\<close> is a sequence of Unicode code points, so a string is a list of
  natural numbers (not of bytes): \<^verbatim>\<open>str.split\<close> decides what is whitespace code point by
  code point. \<open>lit\<close> writes an ASCII literal of the source.
\<close>

type_synonym pystr = "nat list"

definition lit :: "string \<Rightarrow> pystr" where
  "lit s = map of_char s"

text \<open>
  The code points for which \<^verbatim>\<open>str.isspace\<close> holds; \<^verbatim>\<open>str.split()\<close> without a
  separator splits at exactly these: TAB, LF, VT, FF, CR, the separators
  U+001C..U+001F, SPACE, NEL (U+0085), NBSP (U+00A0), U+1680, U+2000..U+200A, U+2028,
  U+2029, U+202F, U+205F and U+3000.
\<close>

definition is_space :: "nat \<Rightarrow> bool" where
  "is_space c =
     ((9 \<le> c \<and> c \<le> 13) \<or> (28 \<le> c \<and> c \<le> 32) \<or> c = 133 \<or> c = 160 \<or> c = 5760 \<or>
      (8192 \<le> c \<and> c \<le> 8202) \<or> c = 8232 \<or> c = 8233 \<or> c = 8239 \<or> c = 8287 \<or>
      c = 12288)"

text \<open>
  \<^verbatim>\<open>prompt.split()\<close>: skip the whitespace in front, take the run of non-whitespace
  code points as the next token, go on behind it; stop when only whitespace is left.
\<close>

function split_ws :: "pystr \<Rightarrow> pystr list" where
  "split_ws s =
     (case dropWhile is_space s of
        [] \<Rightarrow> []
      | c # r \<Rightarrow>
          takeWhile (\<lambda>x. \<not> is_space x) (c # r) #
          split_ws (dropWhile (\<lambda>x. \<not> is_space x) (c # r)))"
  by pat_completeness auto
termination
proof (relation "measure length")
  show "wf (measure length)" by simp
next
  fix s :: pystr and c r
  assume eq: "dropWhile is_space s = c # r"
  then have c: "\<not> is_space c"
    by (simp add: dropWhile_eq_Cons_conv)
  have len: "length (c # r) \<le> length s"
    using length_dropWhile_le [of is_space s] by (simp only: eq)
  have "length (dropWhile (\<lambda>x. \<not> is_space x) (c # r)) \<le> length r"
    using c length_dropWhile_le [of "\<lambda>x. \<not> is_space x" r] by simp
  with len show "(dropWhile (\<lambda>x. \<not> is_space x) (c # r), s) \<in> measure length"
    by simp
qed

declare split_ws.simps [simp del]

text \<open>
  The tokenization rule in the words of the specification, to compare \<open>split_ws\<close>
  with: the input is cut at every whitespace code point (\<open>pieces\<close>), and the empty
  pieces, which lie between the code points of one whitespace run and at the two ends,
  are not tokens.
\<close>

fun pieces :: "pystr \<Rightarrow> pystr list" where
  "pieces [] = [[]]"
| "pieces (c # s) =
     (if is_space c then [] # pieces s
      else (case pieces s of [] \<Rightarrow> [[c]] | t # ts \<Rightarrow> (c # t) # ts))"

definition whitespace_run_tokens :: "pystr \<Rightarrow> pystr list" where
  "whitespace_run_tokens s = filter (\<lambda>t. t \<noteq> []) (pieces s)"

text \<open>\<^verbatim>\<open>sep.join(tokens)\<close>.\<close>

fun join :: "pystr \<Rightarrow> pystr list \<Rightarrow> pystr" where
  "join sep [] = []"
| "join sep [t] = t"
| "join sep (t # u # ts) = t @ sep @ join sep (u # ts)"

text \<open>
  Exceptions. \<^verbatim>\<open>except Exception\<close> catches the instances of \<^verbatim>\<open>Exception\<close> and of its
  subclasses (\<^verbatim>\<open>TypeError\<close> is the one the client raises itself); \<open>BaseException\<close>
  stands for the classes outside it (\<^verbatim>\<open>KeyboardInterrupt\<close>, \<^verbatim>\<open>SystemExit\<close>,
  \<^verbatim>\<open>GeneratorExit\<close>, \<^verbatim>\<open>asyncio.CancelledError\<close>), which that clause lets pass.
\<close>

datatype exc_class = BaseException | Exception | TypeError

datatype pyexc = PyExc (exc_class: exc_class) (exc_msg: pystr)

definition is_Exception :: "pyexc \<Rightarrow> bool" where
  "is_Exception e = (exc_class e \<noteq> BaseException)"

section \<open>Generators\<close>

text \<open>
  A generator is what its consumer meets pull after pull: \<open>Yield t g\<close> hands out \<open>t\<close>
  and goes on as \<open>g\<close>, \<open>Done\<close> returns (\<^verbatim>\<open>StopIteration\<close>), \<open>Raise e\<close> raises \<open>e\<close>
  out of the pull and is finished. \<open>Invoke x g\<close> is the one effect whose moment matters
  here: the generator calls a transform function on \<open>x\<close> and goes on as \<open>g\<close>.
  An asynchronous generator has one node more: \<open>Await g\<close> suspends (the
  \<^verbatim>\<open>await asyncio.sleep(...)\<close> of \<^verbatim>\<open>async_stream\<close>) and goes on as \<open>g\<close> when resumed.
  How long the sleep lasts is not modelled; it is finite, so the consumer is resumed.
\<close>

datatype ('a, 'c) gen =
    Done
  | Yield 'a "('a, 'c) gen"
  | Raise pyexc
  | Invoke 'c "('a, 'c) gen"

datatype ('a, 'c) agen =
    ADone
  | AYield 'a "('a, 'c) agen"
  | ARaise pyexc
  | AInvoke 'c "('a, 'c) agen"
  | Await "('a, 'c) agen"

subsection \<open>Consumers\<close>

text \<open>
  A caller that iterates (\<^verbatim>\<open>for token in g\<close>, \<^verbatim>\<open>async for token in g\<close>) receives the
  tokens \<open>emitted g\<close> and then sees the loop end as \<open>ending g\<close> says: normally, or with
  an exception raised out of the loop.
\<close>

datatype outcome = Exhausted | Failed pyexc

fun emitted :: "('a, 'c) gen \<Rightarrow> 'a list" where
  "emitted Done = []"
| "emitted (Yield t g) = t # emitted g"
| "emitted (Raise e) = []"
| "emitted (Invoke x g) = emitted g"

fun ending :: "('a, 'c) gen \<Rightarrow> outcome" where
  "ending Done = Exhausted"
| "ending (Yield t g) = ending g"
| "ending (Raise e) = Failed e"
| "ending (Invoke x g) = ending g"

fun aemitted :: "('a, 'c) agen \<Rightarrow> 'a list" where
  "aemitted ADone = []"
| "aemitted (AYield t g) = t # aemitted g"
| "aemitted (ARaise e) = []"
| "aemitted (AInvoke x g) = aemitted g"
| "aemitted (Await g) = aemitted g"

fun aending :: "('a, 'c) agen \<Rightarrow> outcome" where
  "aending ADone = Exhausted"
| "aending (AYield t g) = aending g"
| "aending (ARaise e) = Failed e"
| "aending (AInvoke x g) = aending g"
| "aending (Await g) = aending g"

text \<open>
  What happens while a consumer pulls at most \<open>n\<close> times (\<open>n\<close> calls of \<^verbatim>\<open>next\<close>, the
  consumer stopping at the first pull that does not give a token): the calls of the
  transform function and the results of the pulls, in the order they occur.
\<close>

datatype ('a, 'c) obs = Called 'c | Got 'a | Stopped | Raised pyexc | Suspended

fun pulls :: "nat \<Rightarrow> ('a, 'c) gen \<Rightarrow> ('a, 'c) obs list" where
  "pulls 0 g = []"
| "pulls (Suc n) Done = [Stopped]"
| "pulls (Suc n) (Yield t g) = Got t # pulls n g"
| "pulls (Suc n) (Raise e) = [Raised e]"
| "pulls (Suc n) (Invoke x g) = Called x # pulls (Suc n) g"

fun apulls :: "nat \<Rightarrow> ('a, 'c) agen \<Rightarrow> ('a, 'c) obs list" where
  "apulls 0 g = []"
| "apulls (Suc n) ADone = [Stopped]"
| "apulls (Suc n) (AYield t g) = Got t # apulls n g"
| "apulls (Suc n) (ARaise e) = [Raised e]"
| "apulls (Suc n) (AInvoke x g) = Called x # apulls (Suc n) g"
| "apulls (Suc n) (Await g) = Suspended # apulls (Suc n) g"

text \<open>The arguments of the calls that the outermost transform wrapper made.\<close>

fun own_calls :: "('b, 'a + 'c) obs list \<Rightarrow> 'a list" where
  "own_calls [] = []"
| "own_calls (Called (Inl x) # os) = x # own_calls os"
| "own_calls (ob # os) = own_calls os"

text \<open>The tokens that the pulls gave, in order.\<close>

fun tokens_got :: "('a, 'c) obs list \<Rightarrow> 'a list" where
  "tokens_got [] = []"
| "tokens_got (Got t # os) = t # tokens_got os"
| "tokens_got (ob # os) = tokens_got os"

text \<open>\<^verbatim>\<open>list(g)\<close>: the tokens when the generator returns, its exception when it raises.\<close>

fun py_list :: "('a, 'c) gen \<Rightarrow> pyexc + 'a list" where
  "py_list Done = Inr []"
| "py_list (Yield t g) = (case py_list g of Inl e \<Rightarrow> Inl e | Inr ts \<Rightarrow> Inr (t # ts))"
| "py_list (Raise e) = Inl e"
| "py_list (Invoke x g) = py_list g"

section \<open>The functions of \<^verbatim>\<open>client.py\<close>\<close>

subsection \<open>\<^verbatim>\<open>sync_stream\<close>, \<^verbatim>\<open>async_stream\<close>\<close>

text \<open>
  A prompt is \<open>None\<close> (absent) or a string. \<^verbatim>\<open>prompt.split() if prompt else [...]\<close>
  tests the truth value of the prompt: \<open>None\<close> and the empty string are false, every
  other string is true.
\<close>

definition fallback :: "pystr list" where
  "fallback = [lit ''No'', lit ''prompt'', lit ''provided'']"

text \<open>\<^verbatim>\<open>for token in tokens: yield token\<close>\<close>

fun yield_each :: "'a list \<Rightarrow> ('a, 'c) gen" where
  "yield_each [] = Done"
| "yield_each (t # ts) = Yield t (yield_each ts)"

definition sync_stream :: "pystr option \<Rightarrow> (pystr, 'c) gen" where
  "sync_stream prompt =
     (let tokens = (case prompt of
                      None \<Rightarrow> fallback
                    | Some p \<Rightarrow> if p \<noteq> [] then split_ws p else fallback)
      in yield_each tokens)"

text \<open>\<^verbatim>\<open>for token in tokens: await asyncio.sleep(...); yield token\<close>\<close>

fun sleep_yield_each :: "'a list \<Rightarrow> ('a, 'c) agen" where
  "sleep_yield_each [] = ADone"
| "sleep_yield_each (t # ts) = Await (AYield t (sleep_yield_each ts))"

definition async_stream :: "pystr option \<Rightarrow> (pystr, 'c) agen" where
  "async_stream prompt =
     (let tokens = (case prompt of
                      None \<Rightarrow> fallback
                    | Some p \<Rightarrow> if p \<noteq> [] then split_ws p else fallback)
      in sleep_yield_each tokens)"

subsection \<open>\<^verbatim>\<open>collect_sync_response\<close>, \<^verbatim>\<open>collect_async_response\<close>\<close>

text \<open>
  \<open>collect_sync_tokens\<close> is the body of \<^verbatim>\<open>collect_sync_response\<close> with the generator
  it drains as its argument: \<^verbatim>\<open>" ".join(list(g))\<close>. The source function applies it to
  \<^verbatim>\<open>sync_stream(prompt)\<close>.
\<close>

definition collect_sync_tokens :: "(pystr, 'c) gen \<Rightarrow> pyexc + pystr" where
  "collect_sync_tokens g =
     (case py_list g of Inl e \<Rightarrow> Inl e | Inr tokens \<Rightarrow> Inr (join (lit '' '') tokens))"

definition collect_sync_response :: "pystr option \<Rightarrow> pyexc + pystr" where
  "collect_sync_response prompt = collect_sync_tokens (sync_stream prompt :: (pystr, unit) gen)"

text \<open>
  \<^verbatim>\<open>tokens = []\<close>, then \<^verbatim>\<open>async for token in g: tokens.append(token)\<close>, then
  \<^verbatim>\<open>return " ".join(tokens)\<close>; the loop is resumed after every suspension.
\<close>

fun collect_async_loop :: "pystr list \<Rightarrow> (pystr, 'c) agen \<Rightarrow> pyexc + pystr" where
  "collect_async_loop tokens ADone = Inr (join (lit '' '') tokens)"
| "collect_async_loop tokens (AYield t g) = collect_async_loop (tokens @ [t]) g"
| "collect_async_loop tokens (ARaise e) = Inl e"
| "collect_async_loop tokens (AInvoke x g) = collect_async_loop tokens g"
| "collect_async_loop tokens (Await g) = collect_async_loop tokens g"

definition collect_async_tokens :: "(pystr, 'c) agen \<Rightarrow> pyexc + pystr" where
  "collect_async_tokens g = collect_async_loop [] g"

definition collect_async_response :: "pystr option \<Rightarrow> pyexc + pystr" where
  "collect_async_response prompt =
     collect_async_tokens (async_stream prompt :: (pystr, unit) agen)"

subsection \<open>\<^verbatim>\<open>transform_sync_stream\<close>, \<^verbatim>\<open>transform_async_stream\<close>\<close>

text \<open>
  \<^verbatim>\<open>for token in generator: yield transform_func(token)\<close>: the function is called when
  the token has been pulled from the wrapped generator, and its result is yielded. The
  call is recorded as \<open>Invoke (Inl token)\<close>; what the wrapped generator recorded itself
  is kept under \<open>Inr\<close>.
\<close>

fun transform_sync_stream :: "('a, 'c) gen \<Rightarrow> ('a \<Rightarrow> 'b) \<Rightarrow> ('b, 'a + 'c) gen" where
  "transform_sync_stream Done f = Done"
| "transform_sync_stream (Yield t g) f = Invoke (Inl t) (Yield (f t) (transform_sync_stream g f))"
| "transform_sync_stream (Raise e) f = Raise e"
| "transform_sync_stream (Invoke x g) f = Invoke (Inr x) (transform_sync_stream g f)"

fun transform_async_stream :: "('a, 'c) agen \<Rightarrow> ('a \<Rightarrow> 'b) \<Rightarrow> ('b, 'a + 'c) agen" where
  "transform_async_stream ADone f = ADone"
| "transform_async_stream (AYield t g) f =
     AInvoke (Inl t) (AYield (f t) (transform_async_stream g f))"
| "transform_async_stream (ARaise e) f = ARaise e"
| "transform_async_stream (AInvoke x g) f = AInvoke (Inr x) (transform_async_stream g f)"
| "transform_async_stream (Await g) f = Await (transform_async_stream g f)"

subsection \<open>\<^verbatim>\<open>safe_sync_stream\<close>, \<^verbatim>\<open>safe_async_stream\<close>\<close>

text \<open>
  The argument \<^verbatim>\<open>on_error\<close> is \<open>None\<close> (the default of the parameter) or a callable
  object. The handler tests \<^verbatim>\<open>if on_error:\<close>, the truth value of the object, not whether
  one was passed: \<open>None\<close> is false, every function and lambda is true, and a callable
  object is false when its \<^verbatim>\<open>__bool__\<close> returns \<^verbatim>\<open>False\<close> or its \<^verbatim>\<open>__len__\<close> returns 0.
  A callable is therefore its truth value together with what calling it returns.
\<close>

datatype 'a callable = Callable (truth_value: bool) (call: "pyexc \<Rightarrow> 'a")

text \<open>
  \<^verbatim>\<open>try: for token in generator: yield token\<close>, and in the handler
  \<^verbatim>\<open>except Exception as e\<close>: \<^verbatim>\<open>if on_error: yield on_error(e)\<close>, \<^verbatim>\<open>else: raise\<close>. After
  the handler the wrapper returns. An exception that is not an \<^verbatim>\<open>Exception\<close> is not
  caught.
\<close>

fun safe_sync_stream :: "('a, 'c) gen \<Rightarrow> 'a callable option \<Rightarrow> ('a, 'c) gen" where
  "safe_sync_stream Done on_error = Done"
| "safe_sync_stream (Yield t g) on_error = Yield t (safe_sync_stream g on_error)"
| "safe_sync_stream (Raise e) on_error =
     (if is_Exception e
      then (case on_error of
              Some h \<Rightarrow> if truth_value h then Yield (call h e) Done else Raise e
            | None \<Rightarrow> Raise e)
      else Raise e)"
| "safe_sync_stream (Invoke x g) on_error = Invoke x (safe_sync_stream g on_error)"

fun safe_async_stream :: "('a, 'c) agen \<Rightarrow> 'a callable option \<Rightarrow> ('a, 'c) agen" where
  "safe_async_stream ADone on_error = ADone"
| "safe_async_stream (AYield t g) on_error = AYield t (safe_async_stream g on_error)"
| "safe_async_stream (ARaise e) on_error =
     (if is_Exception e
      then (case on_error of
              Some h \<Rightarrow> if truth_value h then AYield (call h e) ADone else ARaise e
            | None \<Rightarrow> ARaise e)
      else ARaise e)"
| "safe_async_stream (AInvoke x g) on_error = AInvoke x (safe_async_stream g on_error)"
| "safe_async_stream (Await g) on_error = Await (safe_async_stream g on_error)"

subsection \<open>\<^verbatim>\<open>LLMStreamingClient\<close>\<close>

text \<open>
  The methods are declared as \<^verbatim>\<open>stream_sync(self, prompt)\<close> and
  \<^verbatim>\<open>astream(self, prompt)\<close>. The second argument of the model says whether the call
  passes a keyword argument \<^verbatim>\<open>callback=cb\<close> (\<open>Some cb\<close>) or the prompt alone (\<open>None\<close>).
  Neither signature has such a parameter, so Python refuses the call with a
  \<^verbatim>\<open>TypeError\<close> when it binds the arguments, before any token is produced.
\<close>

definition unexpected_keyword :: "string \<Rightarrow> pyexc" where
  "unexpected_keyword fn =
     PyExc TypeError (lit fn @ lit ''() got an unexpected keyword argument '' @
                      [39] @ lit ''callback'' @ [39])"

definition stream_sync :: "pystr option \<Rightarrow> (pystr \<Rightarrow> unit) option \<Rightarrow> pyexc + (pystr, 'c) gen" where
  "stream_sync prompt callback_kw =
     (case callback_kw of
        Some cb \<Rightarrow> Inl (unexpected_keyword ''stream_sync'')
      | None \<Rightarrow> Inr (sync_stream prompt))"

definition complete_sync :: "pystr option \<Rightarrow> pyexc + pystr" where
  "complete_sync prompt = collect_sync_response prompt"

text \<open>\<^verbatim>\<open>async for token in async_stream(prompt): yield token\<close>\<close>

fun astream_loop :: "('a, 'c) agen \<Rightarrow> ('a, 'c) agen" where
  "astream_loop ADone = ADone"
| "astream_loop (AYield t g) = AYield t (astream_loop g)"
| "astream_loop (ARaise e) = ARaise e"
| "astream_loop (AInvoke x g) = AInvoke x (astream_loop g)"
| "astream_loop (Await g) = Await (astream_loop g)"

definition astream :: "pystr option \<Rightarrow> (pystr \<Rightarrow> unit) option \<Rightarrow> pyexc + (pystr, 'c) agen" where
  "astream prompt callback_kw =
     (case callback_kw of
        Some cb \<Rightarrow> Inl (unexpected_keyword ''astream'')
      | None \<Rightarrow> Inr (astream_loop (async_stream prompt)))"

definition acomplete :: "pystr option \<Rightarrow> pyexc + pystr" where
  "acomplete prompt = collect_async_response prompt"

section \<open>Unfolding \<open>split_ws\<close> code point by code point\<close>

lemma split_ws_Nil: "split_ws [] = []"
  by (simp add: split_ws.simps)

lemma split_ws_space: "is_space c \<Longrightarrow> split_ws (c # s) = split_ws s"
  by (simp add: split_ws.simps [of "c # s"] split_ws.simps [of s])

lemma split_ws_nonspace:
  "\<not> is_space c \<Longrightarrow>
   split_ws (c # s) =
     (c # takeWhile (\<lambda>x. \<not> is_space x) s) # split_ws (dropWhile (\<lambda>x. \<not> is_space x) s)"
  by (simp add: split_ws.simps [of "c # s"])

section \<open>What the consumers see\<close>

lemma emitted_yield_each: "emitted (yield_each ts) = ts"
  by (induction ts) simp_all

lemma ending_yield_each: "ending (yield_each ts) = Exhausted"
  by (induction ts) simp_all

lemma aemitted_sleep_yield_each: "aemitted (sleep_yield_each ts) = ts"
  by (induction ts) simp_all

lemma aending_sleep_yield_each: "aending (sleep_yield_each ts) = Exhausted"
  by (induction ts) simp_all

lemma py_list_eq:
  "py_list g = (case ending g of Exhausted \<Rightarrow> Inr (emitted g) | Failed e \<Rightarrow> Inl e)"
  by (induction g) (simp_all split: outcome.split)

lemma collect_async_loop_eq:
  "collect_async_loop acc g =
     (case aending g of
        Exhausted \<Rightarrow> Inr (join (lit '' '') (acc @ aemitted g))
      | Failed e \<Rightarrow> Inl e)"
  by (induction g arbitrary: acc) (simp_all split: outcome.split)

section \<open>Properties of splitting and joining\<close>

lemma split_ws_token:
  "t \<in> set (split_ws s) \<Longrightarrow> t \<noteq> [] \<and> (\<forall>c\<in>set t. \<not> is_space c)"
proof (induction s rule: split_ws.induct)
  case (1 s)
  show ?case
  proof (cases "dropWhile is_space s")
    case Nil
    with "1.prems" show ?thesis
      by (simp add: split_ws.simps [of s])
  next
    case (Cons c r)
    then have c: "\<not> is_space c"
      by (simp add: dropWhile_eq_Cons_conv)
    from "1.prems" Cons
    consider "t = takeWhile (\<lambda>x. \<not> is_space x) (c # r)"
      | "t \<in> set (split_ws (dropWhile (\<lambda>x. \<not> is_space x) (c # r)))"
      by (auto simp: split_ws.simps [of s])
    then show ?thesis
    proof cases
      case 1
      with c show ?thesis
        by (auto dest: set_takeWhileD)
    next
      case 2
      with "1.IH" [OF Cons] show ?thesis
        by blast
    qed
  qed
qed

lemma split_ws_all_space: "\<forall>c\<in>set s. is_space c \<Longrightarrow> split_ws s = []"
  by (induction s) (simp_all add: split_ws_Nil split_ws_space)


lemma fallback_token:
  "t \<in> set fallback \<Longrightarrow> t \<noteq> [] \<and> (\<forall>c\<in>set t. \<not> is_space c)"
  by (auto simp: fallback_def lit_def is_space_def)

subsection \<open>\<open>split_ws\<close> against the rule of the specification\<close>

lemma pieces_not_Nil: "pieces s \<noteq> []"
  by (induction s) (simp_all split: list.split)

lemma hd_pieces: "hd (pieces s) = takeWhile (\<lambda>x. \<not> is_space x) s"
  by (induction s) (auto simp: pieces_not_Nil split: list.split)

lemma tl_pieces:
  "filter (\<lambda>t. t \<noteq> []) (tl (pieces s)) =
   filter (\<lambda>t. t \<noteq> []) (pieces (dropWhile (\<lambda>x. \<not> is_space x) s))"
  by (induction s) (auto simp: pieces_not_Nil split: list.split)

lemma pieces_dropWhile_space:
  "filter (\<lambda>t. t \<noteq> []) (pieces (dropWhile is_space s)) = filter (\<lambda>t. t \<noteq> []) (pieces s)"
  by (induction s) simp_all

lemma split_ws_eq_spec: "split_ws s = whitespace_run_tokens s"
proof (induction s rule: split_ws.induct)
  case (1 s)
  show ?case
  proof (cases "dropWhile is_space s")
    case Nil
    then have "split_ws s = []"
      by (simp only: split_ws.simps [of s] list.case)
    moreover have "whitespace_run_tokens s = []"
      using pieces_dropWhile_space [of s] by (simp only: Nil whitespace_run_tokens_def) simp
    ultimately show ?thesis by simp
  next
    case (Cons c r)
    then have c: "\<not> is_space c"
      by (simp add: dropWhile_eq_Cons_conv)
    let ?tok = "takeWhile (\<lambda>x. \<not> is_space x) (c # r)"
    let ?rest = "dropWhile (\<lambda>x. \<not> is_space x) (c # r)"
    have "pieces (c # r) = ?tok # tl (pieces (c # r))"
      using pieces_not_Nil [of "c # r"] hd_pieces [of "c # r"]
      by (cases "pieces (c # r)") simp_all
    then have "whitespace_run_tokens (c # r) =
        filter (\<lambda>t. t \<noteq> []) (?tok # tl (pieces (c # r)))"
      by (simp only: whitespace_run_tokens_def)
    also have "\<dots> = ?tok # filter (\<lambda>t. t \<noteq> []) (tl (pieces (c # r)))"
      using c by simp
    also have "\<dots> = ?tok # whitespace_run_tokens ?rest"
      by (simp only: tl_pieces whitespace_run_tokens_def)
    also have "\<dots> = ?tok # split_ws ?rest"
      using "1.IH" [OF Cons] by simp
    also have "\<dots> = split_ws s"
      by (simp only: split_ws.simps [of s] Cons list.case)
    finally have "whitespace_run_tokens (c # r) = split_ws s" .
    moreover have "whitespace_run_tokens s = whitespace_run_tokens (c # r)"
      using pieces_dropWhile_space [of s] by (simp only: Cons whitespace_run_tokens_def)
    ultimately show ?thesis by simp
  qed
qed

section \<open>The baseline sequences\<close>

lemmas eval_simps =
  lit_def is_space_def fallback_def split_ws_Nil split_ws_space split_ws_nonspace
  sync_stream_def async_stream_def


lemma emitted_sync_stream:
  "emitted (sync_stream prompt) =
     (case prompt of None \<Rightarrow> fallback | Some p \<Rightarrow> if p \<noteq> [] then split_ws p else fallback)"
  by (simp add: sync_stream_def emitted_yield_each)

lemma ending_sync_stream: "ending (sync_stream prompt) = Exhausted"
  by (simp add: sync_stream_def ending_yield_each)

lemma aemitted_async_stream:
  "aemitted (async_stream prompt) =
     (case prompt of None \<Rightarrow> fallback | Some p \<Rightarrow> if p \<noteq> [] then split_ws p else fallback)"
  by (simp add: async_stream_def aemitted_sleep_yield_each)

lemma aending_async_stream: "aending (async_stream prompt) = Exhausted"
  by (simp add: async_stream_def aending_sleep_yield_each)

lemma collect_sync_response_eq:
  "collect_sync_response prompt =
     Inr (join (lit '' '') (emitted (sync_stream prompt :: (pystr, unit) gen)))"
  by (simp add: collect_sync_response_def collect_sync_tokens_def py_list_eq ending_sync_stream)

lemma collect_async_response_eq:
  "collect_async_response prompt =
     Inr (join (lit '' '') (aemitted (async_stream prompt :: (pystr, unit) agen)))"
  by (simp add: collect_async_response_def collect_async_tokens_def collect_async_loop_eq
      aending_async_stream)

lemma baseline_token:
  "t \<in> set (emitted (sync_stream prompt)) \<Longrightarrow> t \<noteq> [] \<and> (\<forall>c\<in>set t. \<not> is_space c)"
  using split_ws_token fallback_token
  by (auto simp: emitted_sync_stream split: option.splits if_splits)

text \<open>
  Claim C10. Whatever the prompt, every token that the blocking and the suspending
  baseline sequence emit is a non-empty string without a whitespace code point; the
  three fallback tokens are among them.
\<close>

theorem baseline_tokens_clean:
  "(\<forall>t\<in>set (emitted (sync_stream prompt)). t \<noteq> [] \<and> (\<forall>c\<in>set t. \<not> is_space c)) \<and>
   (\<forall>t\<in>set (aemitted (async_stream prompt)). t \<noteq> [] \<and> (\<forall>c\<in>set t. \<not> is_space c))"
  using baseline_token [of _ prompt]
  by (simp add: aemitted_async_stream emitted_sync_stream)

theorem baseline_tokens_clean_witness:
  "lit ''Hello'' \<in> set (emitted (sync_stream (Some (lit '' Hello   async world! '')) :: (pystr, unit) gen)) \<and>
   lit ''Hello'' \<noteq> [] \<and> \<not> is_space 72 \<and>
   lit ''No'' \<in> set (aemitted (async_stream None :: (pystr, unit) agen)) \<and>
   lit ''No'' \<noteq> [] \<and> \<not> is_space 78"
  using baseline_tokens_clean [of "Some (lit '' Hello   async world! '')", where ?'a = unit and ?'b = unit]
    baseline_tokens_clean [of None, where ?'a = unit and ?'b = unit]
  by (simp add: eval_simps)

text \<open>
  Claim C9. A prompt that is not empty and holds whitespace only is true as a condition,
  so the fallback is not taken; splitting it gives no token, both sequences end at once,
  and both complete operations return the empty string.
\<close>

theorem whitespace_prompt_empty:
  "p \<noteq> [] \<and> (\<forall>c\<in>set p. is_space c) \<Longrightarrow>
     emitted (sync_stream (Some p)) = [] \<and> ending (sync_stream (Some p)) = Exhausted \<and>
     aemitted (async_stream (Some p)) = [] \<and> aending (async_stream (Some p)) = Exhausted \<and>
     complete_sync (Some p) = Inr [] \<and> acomplete (Some p) = Inr []"
  by (simp add: complete_sync_def acomplete_def collect_sync_response_eq collect_async_response_eq
      emitted_sync_stream ending_sync_stream aemitted_async_stream aending_async_stream
      split_ws_all_space)

theorem whitespace_prompt_empty_witness:
  "lit ''   '' \<noteq> [] \<and> list_all is_space (lit ''   '') \<and>
   emitted (sync_stream (Some (lit ''   '')) :: (pystr, unit) gen) = [] \<and>
   complete_sync (Some (lit ''   '')) = Inr [] \<and> acomplete (Some (lit ''   '')) = Inr [] \<and>
   complete_sync (Some [9, 10, 160]) = Inr []"
proof -
  have a: "lit ''   '' \<noteq> [] \<and> (\<forall>c\<in>set (lit ''   ''). is_space c)"
    by (simp add: lit_def is_space_def)
  have b: "[9, 10, 160] \<noteq> [] \<and> (\<forall>c\<in>set [9, 10, 160 :: nat]. is_space c)"
    by (simp add: is_space_def)
  show ?thesis
    using whitespace_prompt_empty [OF a, where ?'a = unit and ?'b = unit]
      whitespace_prompt_empty [OF b, where ?'a = unit and ?'b = unit] a
    by (simp add: list_all_iff complete_sync_def collect_sync_response_def
        collect_sync_tokens_def eval_simps)
qed

text \<open>
  Claim C5. For every prompt the suspending complete operation returns the string the
  blocking one returns, and the two baseline sequences emit the same tokens in the same
  order and end the same way: the suspensions change nothing but the pacing.
\<close>

theorem modes_agree:
  "acomplete prompt = complete_sync prompt \<and>
   aemitted (async_stream prompt) = emitted (sync_stream prompt) \<and>
   aending (async_stream prompt) = ending (sync_stream prompt)"
  by (simp add: complete_sync_def acomplete_def collect_sync_response_eq collect_async_response_eq
      emitted_sync_stream ending_sync_stream aemitted_async_stream aending_async_stream)

theorem modes_agree_witness:
  "acomplete (Some (lit ''Hello async world'')) = Inr (lit ''Hello async world'') \<and>
   complete_sync (Some (lit ''Hello async world'')) = Inr (lit ''Hello async world'')"
  using modes_agree [of "Some (lit ''Hello async world'')", where ?'a = unit and ?'b = unit and ?'c = unit and ?'d=unit]
  by (simp add: complete_sync_def collect_sync_response_def collect_sync_tokens_def eval_simps)

text \<open>
  Claim C6. For an absent or an empty prompt the blocking and the suspending sequence
  emit the three tokens No, prompt, provided, in this order. For every other prompt they
  emit the result of \<^verbatim>\<open>prompt.split()\<close>, which is the prompt cut at its whitespace runs
  as the specification words it, and no token is empty. Both sequences end normally.
\<close>

theorem tokenization_rule:
  "emitted (sync_stream None) = [lit ''No'', lit ''prompt'', lit ''provided''] \<and>
   emitted (sync_stream (Some [])) = [lit ''No'', lit ''prompt'', lit ''provided''] \<and>
   aemitted (async_stream None) = [lit ''No'', lit ''prompt'', lit ''provided''] \<and>
   aemitted (async_stream (Some [])) = [lit ''No'', lit ''prompt'', lit ''provided''] \<and>
   ending (sync_stream prompt) = Exhausted \<and>
   aending (async_stream prompt) = Exhausted \<and>
   (p \<noteq> [] \<longrightarrow>
      emitted (sync_stream (Some p)) = whitespace_run_tokens p \<and>
      aemitted (async_stream (Some p)) = whitespace_run_tokens p \<and>
      [] \<notin> set (whitespace_run_tokens p))"
  using split_ws_token [of "[]" p] split_ws_eq_spec [of p]
  by (auto simp: sync_stream_def async_stream_def fallback_def emitted_yield_each
      ending_yield_each aemitted_sleep_yield_each aending_sleep_yield_each Let_def)

theorem tokenization_rule_witness:
  "lit ''Hello, world!'' \<noteq> [] \<and>
   emitted (sync_stream (Some (lit ''Hello, world!'')) :: (pystr, unit) gen) =
     [lit ''Hello,'', lit ''world!''] \<and>
   aemitted (async_stream (Some (lit ''Hello, world!'')) :: (pystr, unit) agen) =
     [lit ''Hello,'', lit ''world!''] \<and>
   whitespace_run_tokens (lit ''Hello, world!'') = [lit ''Hello,'', lit ''world!''] \<and>
   emitted (sync_stream None :: (pystr, unit) gen) = [lit ''No'', lit ''prompt'', lit ''provided'']"
  using tokenization_rule [of None "lit ''Hello, world!''", where ?'a = unit and ?'b = unit]
  by (simp add: eval_simps whitespace_run_tokens_def)

section \<open>The transform wrapper\<close>

lemma emitted_transform: "emitted (transform_sync_stream g f) = map f (emitted g)"
  by (induction g) simp_all

lemma ending_transform: "ending (transform_sync_stream g f) = ending g"
  by (induction g) simp_all

lemma aemitted_transform: "aemitted (transform_async_stream g f) = map f (aemitted g)"
  by (induction g) simp_all

lemma aending_transform: "aending (transform_async_stream g f) = aending g"
  by (induction g) simp_all

lemma own_calls_pulls_transform:
  "own_calls (pulls n (transform_sync_stream g f)) = take n (emitted g)"
proof (induction g arbitrary: n)
  case (Yield t g)
  then show ?case by (cases n) simp_all
next
  case (Invoke x g)
  then show ?case by (cases n) simp_all
qed (case_tac n; simp)+

lemma tokens_got_pulls_transform:
  "tokens_got (pulls n (transform_sync_stream g f)) = map f (take n (emitted g))"
proof (induction g arbitrary: n)
  case (Yield t g)
  then show ?case by (cases n) simp_all
next
  case (Invoke x g)
  then show ?case by (cases n) simp_all
qed (case_tac n; simp)+

lemma own_calls_apulls_transform:
  "own_calls (apulls n (transform_async_stream g f)) = take n (aemitted g)"
proof (induction g arbitrary: n)
  case (AYield t g)
  then show ?case by (cases n) simp_all
next
  case (AInvoke x g)
  then show ?case by (cases n) simp_all
next
  case (Await g)
  then show ?case by (cases n) simp_all
qed (case_tac n; simp)+

lemma tokens_got_apulls_transform:
  "tokens_got (apulls n (transform_async_stream g f)) = map f (take n (aemitted g))"
proof (induction g arbitrary: n)
  case (AYield t g)
  then show ?case by (cases n) simp_all
next
  case (AInvoke x g)
  then show ?case by (cases n) simp_all
next
  case (Await g)
  then show ?case by (cases n) simp_all
qed (case_tac n; simp)+

text \<open>
  Claim C7. For every sequence \<open>S\<close> and function \<open>f\<close> the transform wrapper emits
  \<open>f\<close> of each token of \<open>S\<close>, in the same order and number, and ends as \<open>S\<close> ends;
  \<^verbatim>\<open>list\<close> of it is the list of \<open>S\<close> mapped by \<open>f\<close>, or the exception of \<open>S\<close>. While
  the consumer pulls \<open>n\<close> times, \<open>f\<close> is called on the first \<open>n\<close> tokens of \<open>S\<close>, once
  each and in order, and on nothing else: a token is transformed when its position is
  pulled, not before. The same holds for the asynchronous wrapper.
\<close>

theorem transform_wrapper:
  "emitted (transform_sync_stream S f) = map f (emitted S) \<and>
   ending (transform_sync_stream S f) = ending S \<and>
   py_list (transform_sync_stream S f) =
     (case py_list S of Inl e \<Rightarrow> Inl e | Inr ts \<Rightarrow> Inr (map f ts)) \<and>
   own_calls (pulls n (transform_sync_stream S f)) = take n (emitted S) \<and>
   tokens_got (pulls n (transform_sync_stream S f)) = map f (take n (emitted S)) \<and>
   aemitted (transform_async_stream A f) = map f (aemitted A) \<and>
   aending (transform_async_stream A f) = aending A \<and>
   own_calls (apulls n (transform_async_stream A f)) = take n (aemitted A) \<and>
   tokens_got (apulls n (transform_async_stream A f)) = map f (take n (aemitted A))"
  by (simp add: emitted_transform ending_transform aemitted_transform aending_transform
      own_calls_pulls_transform tokens_got_pulls_transform own_calls_apulls_transform
      tokens_got_apulls_transform py_list_eq split: outcome.split)

theorem transform_wrapper_witness:
  "py_list (transform_sync_stream (sync_stream (Some (lit ''hello world'')) :: (pystr, unit) gen)
      (map (\<lambda>c. c - 32))) = Inr [lit ''HELLO'', lit ''WORLD''] \<and>
   pulls 1 (transform_sync_stream (sync_stream (Some (lit ''hello world'')) :: (pystr, unit) gen)
      (map (\<lambda>c. c - 32))) = [Called (Inl (lit ''hello'')), Got (lit ''HELLO'')] \<and>
   aemitted (transform_async_stream (async_stream (Some (lit ''hello async'')) :: (pystr, unit) agen)
      (map (\<lambda>c. c - 32))) = [lit ''HELLO'', lit ''ASYNC'']"
  using transform_wrapper [of "sync_stream (Some (lit ''hello world'')) :: (pystr, unit) gen"
      "map (\<lambda>c. c - 32)" 1 "async_stream (Some (lit ''hello async'')) :: (pystr, unit) agen"]
  by (simp add: eval_simps)


section \<open>The safe wrapper\<close>







lemma pulls_yields_then_raise:
  "pulls (Suc (length ts)) (foldr Yield ts (Raise e)) = map Got ts @ [Raised e]"
  by (induction ts) simp_all

lemma apulls_yields_then_raise:
  "apulls (Suc (length ts)) (foldr AYield ts (ARaise e)) = map Got ts @ [Raised e]"
  by (induction ts) simp_all

lemma safe_sync_no_policy: "safe_sync_stream g None = g"
  by (induction g) simp_all

lemma safe_async_no_policy: "safe_async_stream g None = g"
  by (induction g) simp_all

text \<open>A policy whose truth value is false is treated as no policy.\<close>

lemma safe_sync_falsy_policy: "\<not> truth_value h \<Longrightarrow> safe_sync_stream g (Some h) = g"
  by (induction g) simp_all

lemma safe_async_falsy_policy: "\<not> truth_value h \<Longrightarrow> safe_async_stream g (Some h) = g"
  by (induction g) simp_all

text \<open>What the handler does not catch passes through, with or without a policy.\<close>

lemma safe_sync_lets_pass:
  "\<not> is_Exception e \<Longrightarrow>
   safe_sync_stream (foldr Yield ts (Raise e)) on_error = foldr Yield ts (Raise e)"
  by (induction ts) simp_all

lemma safe_async_lets_pass:
  "\<not> is_Exception e \<Longrightarrow>
   safe_async_stream (foldr AYield ts (ARaise e)) on_error = foldr AYield ts (ARaise e)"
  by (induction ts) simp_all

lemma emitted_yields_then: "emitted (foldr Yield ts g) = ts @ emitted g"
  by (induction ts) simp_all

lemma ending_yields_then: "ending (foldr Yield ts g) = ending g"
  by (induction ts) simp_all

lemma aemitted_yields_then: "aemitted (foldr AYield ts g) = ts @ aemitted g"
  by (induction ts) simp_all

lemma aending_yields_then: "aending (foldr AYield ts g) = aending g"
  by (induction ts) simp_all




text \<open>
  Claim C3. Without a recovery policy the safe wrapper behaves as the sequence it wraps.
  When that sequence yields \<open>t1 .. tn\<close> and then raises \<open>e\<close>, the caller receives
  \<open>t1 .. tn\<close> and then the same \<open>e\<close> is raised out of the pull \<open>n + 1\<close>; no token stands
  in for it. The same holds for the asynchronous wrapper.
\<close>

theorem safe_wrapper_reraises:
  "safe_sync_stream g None = g \<and>
   safe_async_stream a None = a \<and>
   (ending g = Failed e \<longrightarrow>
      emitted (safe_sync_stream g None) = emitted g \<and>
      ending (safe_sync_stream g None) = Failed e \<and>
      py_list (safe_sync_stream g None) = Inl e) \<and>
   (aending a = Failed e \<longrightarrow>
      aemitted (safe_async_stream a None) = aemitted a \<and>
      aending (safe_async_stream a None) = Failed e) \<and>
   emitted (safe_sync_stream (foldr Yield ts (Raise e)) None) = ts \<and>
   ending (safe_sync_stream (foldr Yield ts (Raise e)) None) = Failed e \<and>
   pulls (length ts + 1) (safe_sync_stream (foldr Yield ts (Raise e)) None) =
     map Got ts @ [Raised e] \<and>
   aemitted (safe_async_stream (foldr AYield ts (ARaise e)) None) = ts \<and>
   aending (safe_async_stream (foldr AYield ts (ARaise e)) None) = Failed e \<and>
   apulls (length ts + 1) (safe_async_stream (foldr AYield ts (ARaise e)) None) =
     map Got ts @ [Raised e]"
  by (simp add: safe_sync_no_policy safe_async_no_policy py_list_eq emitted_yields_then
      ending_yields_then aemitted_yields_then aending_yields_then pulls_yields_then_raise
      apulls_yields_then_raise)

theorem safe_wrapper_reraises_witness:
  "ending (Yield (lit ''A'') (Yield (lit ''B'') (Raise (PyExc Exception (lit ''X'')))) :: (pystr, unit) gen) =
     Failed (PyExc Exception (lit ''X'')) \<and>
   emitted (safe_sync_stream
       (Yield (lit ''A'') (Yield (lit ''B'') (Raise (PyExc Exception (lit ''X'')))) :: (pystr, unit) gen)
       None) = [lit ''A'', lit ''B''] \<and>
   ending (safe_sync_stream
       (Yield (lit ''A'') (Yield (lit ''B'') (Raise (PyExc Exception (lit ''X'')))) :: (pystr, unit) gen)
       None) = Failed (PyExc Exception (lit ''X'')) \<and>
   aending (AYield (lit ''A'') (AYield (lit ''B'') (ARaise (PyExc Exception (lit ''X'')))) :: (pystr, unit) agen) =
     Failed (PyExc Exception (lit ''X'')) \<and>
   aemitted (safe_async_stream
       (AYield (lit ''A'') (AYield (lit ''B'') (ARaise (PyExc Exception (lit ''X'')))) :: (pystr, unit) agen)
       None) = [lit ''A'', lit ''B''] \<and>
   aending (safe_async_stream
       (AYield (lit ''A'') (AYield (lit ''B'') (ARaise (PyExc Exception (lit ''X'')))) :: (pystr, unit) agen)
       None) = Failed (PyExc Exception (lit ''X''))"
  using safe_wrapper_reraises [
      of "Yield (lit ''A'') (Yield (lit ''B'') (Raise (PyExc Exception (lit ''X'')))) :: (pystr, unit) gen"
         "AYield (lit ''A'') (AYield (lit ''B'') (ARaise (PyExc Exception (lit ''X'')))) :: (pystr, unit) agen"
         "PyExc Exception (lit ''X'')" "[lit ''A'', lit ''B'']"]
  by simp

section \<open>The aggregator\<close>








section \<open>The client and the callback\<close>

text \<open>
  Claim C1, on the code as it is. The tests call
  \<^verbatim>\<open>client.stream_sync("Hello callback", callback=callback)\<close> and
  \<^verbatim>\<open>client.astream("Async callback test", callback=callback)\<close> and expect the tokens
  and one callback call per token. Both methods take the prompt only, so each of these
  calls raises \<^verbatim>\<open>TypeError\<close>: no generator is made, no token is emitted and the callback
  is never called.
\<close>

theorem client_rejects_callback:
  "stream_sync (Some (lit ''Hello callback'')) (Some (\<lambda>token. ())) =
     Inl (unexpected_keyword ''stream_sync'') \<and>
   astream (Some (lit ''Async callback test'')) (Some (\<lambda>token. ())) =
     Inl (unexpected_keyword ''astream'')"
  by (simp add: stream_sync_def astream_def)


section \<open>Round trip\<close>

lemma join_Cons_Cons: "join sep ((c # t) # ts) = c # join sep (t # ts)"
  by (cases ts) simp_all

lemma split_join_single_spaced:
  "s \<noteq> [] \<Longrightarrow> \<not> is_space (hd s) \<Longrightarrow> \<not> is_space (last s) \<Longrightarrow>
   \<forall>c\<in>set s. is_space c \<longrightarrow> c = 32 \<Longrightarrow>
   successively (\<lambda>a b. \<not> (is_space a \<and> is_space b)) s \<Longrightarrow>
   split_ws s \<noteq> [] \<and> join [32] (split_ws s) = s"
proof (induction s rule: induct_list012)
  case 1
  then show ?case by simp
next
  case (2 x)
  then show ?case by (simp add: split_ws_nonspace split_ws_Nil)
next
  case (3 x y zs)
  note hd = "3.prems"(2) and last = "3.prems"(3) and sp = "3.prems"(4) and adj = "3.prems"(5)
  from hd have x: "\<not> is_space x" by simp
  show ?case
  proof (cases "is_space y")
    case True
    from sp True have y: "y = 32" by simp
    from last True have zs: "zs \<noteq> []" by (cases zs) simp_all
    then obtain z zs' where z: "zs = z # zs'" by (cases zs) simp_all
    from adj True have "\<not> is_space z" by (simp add: z)
    then have "\<not> is_space (hd zs)" by (simp add: z)
    moreover from last have "\<not> is_space (last zs)" by (simp add: z)
    moreover from sp have "\<forall>c\<in>set zs. is_space c \<longrightarrow> c = 32" by simp
    moreover from adj have "successively (\<lambda>a b. \<not> (is_space a \<and> is_space b)) zs"
      by (simp add: z)
    ultimately have ih: "split_ws zs \<noteq> [] \<and> join [32] (split_ws zs) = zs"
      using "3.IH"(1) zs by blast
    then obtain t ts where t: "split_ws zs = t # ts" by (cases "split_ws zs") simp_all
    have "split_ws (x # y # zs) = [x] # t # ts"
      using x True by (simp add: split_ws_nonspace split_ws_space t)
    moreover have "join [32] (t # ts) = zs"
      using ih by (simp only: t)
    ultimately show ?thesis
      by (simp add: y)
  next
    case False
    from last have "\<not> is_space (last (y # zs))" by simp
    moreover from sp have "\<forall>c\<in>set (y # zs). is_space c \<longrightarrow> c = 32" by simp
    moreover from adj have "successively (\<lambda>a b. \<not> (is_space a \<and> is_space b)) (y # zs)"
      by simp
    ultimately have ih: "split_ws (y # zs) \<noteq> [] \<and> join [32] (split_ws (y # zs)) = y # zs"
      using "3.IH"(2) False by simp
    then obtain t ts where t: "split_ws (y # zs) = t # ts"
      by (cases "split_ws (y # zs)") simp_all
    have "split_ws (x # y # zs) = (x # t) # ts"
      using x False t by (simp add: split_ws_nonspace)
    moreover have "join [32] (t # ts) = y # zs"
      using ih by (simp only: t)
    ultimately show ?thesis
      by (simp add: join_Cons_Cons)
  qed
qed

text \<open>
  Claim C4. Let the prompt be non-empty, with no whitespace at its start or its end, with
  the space character (code point 32) as its only whitespace, and with no two whitespace
  code points next to each other: its tokens are separated by exactly one space. Then the
  blocking complete operation returns the prompt itself.
\<close>

theorem complete_sync_round_trip:
  "P \<noteq> [] \<Longrightarrow> \<not> is_space (hd P) \<Longrightarrow> \<not> is_space (last P) \<Longrightarrow>
   \<forall>c\<in>set P. is_space c \<longrightarrow> c = 32 \<Longrightarrow>
   successively (\<lambda>a b. \<not> (is_space a \<and> is_space b)) P \<Longrightarrow>
   complete_sync (Some P) = Inr P"
  using split_join_single_spaced [of P]
  by (simp add: complete_sync_def collect_sync_response_eq emitted_sync_stream lit_def)

theorem complete_sync_round_trip_witness:
  "complete_sync (Some (lit ''Hello world'')) = Inr (lit ''Hello world'')"
proof -
  have "lit ''Hello world'' \<noteq> []" "\<not> is_space (hd (lit ''Hello world''))"
    "\<not> is_space (last (lit ''Hello world''))"
    "\<forall>c\<in>set (lit ''Hello world''). is_space c \<longrightarrow> c = 32"
    "successively (\<lambda>a b. \<not> (is_space a \<and> is_space b)) (lit ''Hello world'')"
    by (simp_all add: lit_def is_space_def)
  then show ?thesis
    by (rule complete_sync_round_trip)
qed

end
